theory Spec2Isabelle
  imports Main "HOL-Library.Word"
begin

section \<open>The parse package: data model\<close>

text \<open>
  A shallow embedding of \<^verbatim>\<open>src/parse/parse.go\<close>. Go strings are byte sequences, so a
  Go string is a \<^typ>\<open>string\<close> (a list of 8-bit characters) and \<^verbatim>\<open>len\<close> is
  \<^const>\<open>length\<close>. A Go slice that the code compares with \<^verbatim>\<open>nil\<close> is a
  \<^typ>\<open>'a list option\<close> (\<^const>\<open>None\<close> is the nil slice); a slice that is only ranged
  over, appended to or indexed is a list (the nil slice being the empty list).
\<close>

type_synonym row = "string list"

text \<open>
  The error values of the package: \<^verbatim>\<open>errors.New(msg)\<close>, and the error of a failed
  \<^verbatim>\<open>os.Open(path)\<close>.
\<close>

datatype error = ErrorString string | PathError string

text \<open>The run-time panics the code can raise.\<close>

datatype panic =
    SliceBoundsOutOfRange
  | IndexOutOfRange
  | SendOnClosedChannel
  | CloseOfClosedChannel
  | MakeChanSizeOutOfRange

text \<open>The result of a Go function returning \<^verbatim>\<open>(value, error)\<close> that may also panic.\<close>

datatype 'a res = Ok 'a | Err error | Panic panic

text \<open>
  The channel \<^verbatim>\<open>chan []string\<close>. The model records the rows sent so far, in the order
  of the sends, and whether the channel has been closed: a send on a closed channel and a
  second close panic, as in Go. Consumers are not modelled: a send is taken to complete
  (some consumer drains a full buffer), so \<open>sent\<close> is the sequence of rows the
  consumers receive before they observe the close.
\<close>

record chan =
  capacity :: nat
  sent :: "row list"
  closed :: bool

definition send :: "chan \<Rightarrow> row \<Rightarrow> chan option" where
  "send ch r = (if closed ch then None else Some (ch\<lparr>sent := sent ch @ [r]\<rparr>))"

definition close :: "chan \<Rightarrow> chan option" where
  "close ch = (if closed ch then None else Some (ch\<lparr>closed := True\<rparr>))"

text \<open>
  \<^verbatim>\<open>type Parser struct\<close>. The field \<^verbatim>\<open>fields\<close> is named \<open>fields'\<close> here (the record
  package reserves \<open>fields\<close>); it is compared with nil by the code, and so is
  \<^verbatim>\<open>Row\<close>.
\<close>

record Parser =
  allFields :: bool
  fields' :: "string list option"
  fieldsIndex :: "nat list"
  filepath :: string
  Row :: "chan option"

text \<open>
  The files: a path is mapped to the lines of the file, that is the byte sequences between
  its newline bytes, or to \<^const>\<open>None\<close> when \<^verbatim>\<open>os.Open\<close> fails for the path.
\<close>

type_synonym files = "string \<Rightarrow> string list option"

text \<open>
  The lines a \<^verbatim>\<open>bufio.Scanner\<close> with its default split function and buffer yields for a
  file, one \<^verbatim>\<open>scanner.Text()\<close> for every \<^verbatim>\<open>scanner.Scan()\<close> that returns true. The
  scanner is library code: a line must fit into its buffer of \<^verbatim>\<open>MaxScanTokenSize\<close> bytes
  together with its newline, so at the first line of that many bytes or more \<^verbatim>\<open>Scan\<close>
  returns false and the loop over the file ends as it does at the end of the file (the
  code never looks at \<^verbatim>\<open>scanner.Err()\<close>); and one carriage return at the end of a line
  is dropped.
\<close>

definition MaxScanTokenSize :: nat where
  "MaxScanTokenSize = 64 * 1024"

definition dropCR :: "string \<Rightarrow> string" where
  "dropCR line = (if line \<noteq> [] \<and> last line = CHR 0x0D then butlast line else line)"

fun Scanner_lines :: "string list \<Rightarrow> string list" where
  "Scanner_lines [] = []"
| "Scanner_lines (line # rest) =
     (if length line < MaxScanTokenSize then dropCR line # Scanner_lines rest else [])"

text \<open>
  \<^verbatim>\<open>type Parse func([]string, []string) ([]string, error)\<close>: the transform returns both
  values, and the caller looks at the error first.
\<close>

type_synonym Parse = "string list \<Rightarrow> row \<Rightarrow> row \<times> error option"

definition TAB :: char where
  "TAB = CHR 0x09"

section \<open>Construction and configuration\<close>

text \<open>
  \<^verbatim>\<open>NewParser\<close> refuses a path only when \<^verbatim>\<open>os.Stat\<close> fails with an error that
  \<^verbatim>\<open>os.IsNotExist\<close> accepts; \<open>notExist\<close> says for which paths that is so. Whether the
  path can be opened later is another matter (see \<open>files\<close>).
\<close>

definition NewParser :: "(string \<Rightarrow> bool) \<Rightarrow> string \<Rightarrow> bool \<Rightarrow> Parser res" where
  "NewParser notExist path af =
     (if notExist path then Err (ErrorString ''File path does not exist'')
      else Ok \<lparr>allFields = af, fields' = None, fieldsIndex = [], filepath = path, Row = None\<rparr>)"

definition SetFields :: "Parser \<Rightarrow> string list option \<Rightarrow> Parser" where
  "SetFields p flds = p\<lparr>fields' := flds\<rparr>"

definition Fields :: "Parser \<Rightarrow> string list option" where
  "Fields p = fields' p"

text \<open>
  \<^verbatim>\<open>bufferSize\<close> is a Go \<^verbatim>\<open>int\<close>, a signed integer of 64 bits.
  \<^verbatim>\<open>make(chan []string, bufferSize)\<close> panics with \<^verbatim>\<open>size out of range\<close> on a negative
  size and on a size above a bound that the Go runtime derives from the platform. That
  bound, \<open>maxSize\<close>, is a parameter of the model.
\<close>

definition CreateBuffer :: "nat \<Rightarrow> Parser \<Rightarrow> 64 word \<Rightarrow> Parser res" where
  "CreateBuffer maxSize p bufferSize =
     (if sint bufferSize < 0 \<or> int maxSize < sint bufferSize then Panic MakeChanSizeOutOfRange
      else Ok (p\<lparr>Row := Some \<lparr>capacity = nat (sint bufferSize), sent = [],
                              closed = False\<rparr>\<rparr>))"

section \<open>Header Scanner\<close>

text \<open>
  \<^verbatim>\<open>strings.Split(s, sep)\<close> for a separator of one byte: the pieces between the
  separators, one more than there are separators.
\<close>

fun strings_Split :: "string \<Rightarrow> char \<Rightarrow> string list" where
  "strings_Split [] sep = [[]]"
| "strings_Split (c # cs) sep =
     (if c = sep then [] # strings_Split cs sep
      else (case strings_Split cs sep of
              [] \<Rightarrow> [[c]]
            | w # ws \<Rightarrow> (c # w) # ws))"

text \<open>
  The loop of \<^verbatim>\<open>ParseAllFields\<close> over the lines the scanner yields. \<^verbatim>\<open>line[0:7]\<close> panics on a
  line of fewer than 7 bytes and \<^verbatim>\<open>line[8:]\<close> on one of fewer than 8; the result is the
  nil slice when no line matches.
\<close>

fun ParseAllFields_loop :: "string list \<Rightarrow> string list option res" where
  "ParseAllFields_loop [] = Ok None"
| "ParseAllFields_loop (line # rest) =
     (if length line < 7 then Panic SliceBoundsOutOfRange
      else if take 7 line = ''#fields'' then
        (if length line < 8 then Panic SliceBoundsOutOfRange
         else if drop 8 line = [] then Err (ErrorString ''Fields row is malformed'')
         else Ok (Some (strings_Split (drop 8 line) TAB)))
      else ParseAllFields_loop rest)"

definition ParseAllFields :: "files \<Rightarrow> Parser \<Rightarrow> string list option res" where
  "ParseAllFields fs p =
     (case fs (filepath p) of
        None \<Rightarrow> Err (PathError (filepath p))
      | Some lines \<Rightarrow> ParseAllFields_loop (Scanner_lines lines))"

section \<open>Field Index Resolver\<close>

definition slice_elems :: "'a list option \<Rightarrow> 'a list" where
  "slice_elems s = (case s of None \<Rightarrow> [] | Some xs \<Rightarrow> xs)"

definition NotFound :: "string \<Rightarrow> error" where
  "NotFound configField =
     ErrorString (''Couldn't match field defined in config with one in bro log, field is: ''
                  @ configField)"

text \<open>
  \<^verbatim>\<open>getIndex\<close>: the loop carries the index \<open>i\<close> of \<^verbatim>\<open>range\<close>. On failure Go returns
  \<^verbatim>\<open>-1\<close> beside the error; the caller drops it.
\<close>

fun getIndex_from :: "nat \<Rightarrow> string list \<Rightarrow> string \<Rightarrow> error + nat" where
  "getIndex_from i [] configField = Inl (NotFound configField)"
| "getIndex_from i (field # rest) configField =
     (if field = configField then Inr i else getIndex_from (Suc i) rest configField)"

definition getIndex :: "string list \<Rightarrow> string \<Rightarrow> error + nat" where
  "getIndex allF configField = getIndex_from 0 allF configField"

text \<open>
  The loop of \<^verbatim>\<open>GetIndexOfFields\<close> over \<^verbatim>\<open>p.fields\<close>: every index found is appended to
  \<^verbatim>\<open>p.fieldsIndex\<close> at once, and the first failure returns.
\<close>

fun GetIndexOfFields_loop :: "string list \<Rightarrow> string list \<Rightarrow> Parser \<Rightarrow> Parser \<times> error option" where
  "GetIndexOfFields_loop allF [] p = (p, None)"
| "GetIndexOfFields_loop allF (configField # rest) p =
     (case getIndex allF configField of
        Inl err \<Rightarrow> (p, Some err)
      | Inr index \<Rightarrow>
          GetIndexOfFields_loop allF rest (p\<lparr>fieldsIndex := fieldsIndex p @ [index]\<rparr>))"

text \<open>
  \<^verbatim>\<open>GetIndexOfFields\<close> returns the parser as it leaves it, and \<open>Ok ()\<close> for the nil
  error, the returned error, or the panic of the header scan.
\<close>

definition GetIndexOfFields :: "files \<Rightarrow> Parser \<Rightarrow> Parser \<times> unit res" where
  "GetIndexOfFields fs p =
     (case ParseAllFields fs p of
        Panic k \<Rightarrow> (p, Panic k)
      | Err err \<Rightarrow> (p, Err err)
      | Ok allF \<Rightarrow>
          (case fields' p of
             None \<Rightarrow> (p, Err (ErrorString ''No specific fields defined for parsing''))
           | Some flds \<Rightarrow>
               (case GetIndexOfFields_loop (slice_elems allF) flds p of
                  (p', None) \<Rightarrow> (p', Ok ())
                | (p', Some err) \<Rightarrow> (p', Err err))))"

section \<open>Row Stream Engine\<close>

text \<open>
  The projection loop \<^verbatim>\<open>parsedEntry = append(parsedEntry, entry[fieldIndex])\<close>:
  \<^const>\<open>None\<close> is the index-out-of-range panic of \<^verbatim>\<open>entry[fieldIndex]\<close>.
\<close>

fun project :: "nat list \<Rightarrow> row \<Rightarrow> row option" where
  "project [] entry = Some []"
| "project (fieldIndex # rest) entry =
     (if fieldIndex < length entry
      then (case project rest entry of
              None \<Rightarrow> None
            | Some parsedEntry \<Rightarrow> Some (entry ! fieldIndex # parsedEntry))
      else None)"

text \<open>
  What is sent for an extraction: the extraction itself when no transform was passed
  (\<^verbatim>\<open>moreDataFiltering == false\<close>), otherwise the result of \<^verbatim>\<open>parseFunc[0]\<close>, or the
  extraction again when the transform returns an error.
\<close>

definition filtered :: "Parse list \<Rightarrow> string list \<Rightarrow> row \<Rightarrow> row" where
  "filtered parseFunc flds entry =
     (case parseFunc of
        [] \<Rightarrow> entry
      | f # _ \<Rightarrow>
          (case f flds entry of
             (modifiedParsedEntry, None) \<Rightarrow> modifiedParsedEntry
           | (_, Some err) \<Rightarrow> entry))"

text \<open>
  The body of the scan loop of \<^verbatim>\<open>BufferRow\<close> for one line: the channel afterwards, and
  the panic if the line raised one. \<^verbatim>\<open>line[0]\<close> panics on the empty line.
\<close>

definition BufferRow_line :: "Parser \<Rightarrow> Parse list \<Rightarrow> string \<Rightarrow> chan \<Rightarrow> chan \<times> panic option" where
  "BufferRow_line p parseFunc line ch =
     (case line of
        [] \<Rightarrow> (ch, Some IndexOutOfRange)
      | c # remainder \<Rightarrow>
          if c \<noteq> CHR ''#'' then
            (if remainder = [] then (ch, None)
             else
               let entry = strings_Split line TAB in
               if allFields p = False then
                 (case project (fieldsIndex p) entry of
                    None \<Rightarrow> (ch, Some IndexOutOfRange)
                  | Some parsedEntry \<Rightarrow>
                      (case send ch (filtered parseFunc (slice_elems (fields' p)) parsedEntry) of
                         None \<Rightarrow> (ch, Some SendOnClosedChannel)
                       | Some ch' \<Rightarrow> (ch', None)))
               else if length (slice_elems (fields' p)) \<noteq> length entry then (ch, None)
               else
                 (case send ch (filtered parseFunc (slice_elems (fields' p)) entry) of
                    None \<Rightarrow> (ch, Some SendOnClosedChannel)
                  | Some ch' \<Rightarrow> (ch', None)))
          else (ch, None))"

fun BufferRow_loop :: "Parser \<Rightarrow> Parse list \<Rightarrow> string list \<Rightarrow> chan \<Rightarrow> chan \<times> panic option" where
  "BufferRow_loop p parseFunc [] ch = (ch, None)"
| "BufferRow_loop p parseFunc (line # rest) ch =
     (case BufferRow_line p parseFunc line ch of
        (ch', Some k) \<Rightarrow> (ch', Some k)
      | (ch', None) \<Rightarrow> BufferRow_loop p parseFunc rest ch')"

text \<open>How a call of \<^verbatim>\<open>BufferRow\<close> ends: it has no return value.\<close>

datatype exit =
    Completed
  | LoggedMsg string
  | LoggedErr error
  | Panicked panic

definition BufferRow :: "files \<Rightarrow> Parser \<Rightarrow> Parse list \<Rightarrow> Parser \<times> exit" where
  "BufferRow fs p parseFunc =
     (case Row p of
        None \<Rightarrow> (p, LoggedMsg ''Initialize nil channel, via CreateBuffer()'')
      | Some ch \<Rightarrow>
          (case fields' p of
             None \<Rightarrow> (p, LoggedMsg ''No fields parsed'')
           | Some flds \<Rightarrow>
               (case (if allFields p = False then GetIndexOfFields fs p else (p, Ok ())) of
                  (p1, Panic k) \<Rightarrow> (p1, Panicked k)
                | (p1, Err err) \<Rightarrow> (p1, LoggedErr err)
                | (p1, Ok _) \<Rightarrow>
                    (case fs (filepath p1) of
                       None \<Rightarrow> (p1, LoggedErr (PathError (filepath p1)))
                     | Some lines \<Rightarrow>
                         (case BufferRow_loop p1 parseFunc (Scanner_lines lines) ch of
                            (ch', Some k) \<Rightarrow> (p1\<lparr>Row := Some ch'\<rparr>, Panicked k)
                          | (ch', None) \<Rightarrow>
                              (case close ch' of
                                 None \<Rightarrow> (p1\<lparr>Row := Some ch'\<rparr>, Panicked CloseOfClosedChannel)
                               | Some ch'' \<Rightarrow> (p1\<lparr>Row := Some ch''\<rparr>, Completed)))))))"


section \<open>Example logs and parsers\<close>

text \<open>
  The log with the header line \<^verbatim>\<open>#fields\ta\tb\tc\<close> and the data lines \<^verbatim>\<open>1\t2\t3\<close> and
  \<^verbatim>\<open>4\t5\t6\<close>, and a log with the header a, b and one data line.
\<close>

definition abc_log :: "string list" where
  "abc_log =
     [''#fields'' @ [TAB] @ ''a'' @ [TAB] @ ''b'' @ [TAB] @ ''c'',
      ''1'' @ [TAB] @ ''2'' @ [TAB] @ ''3'',
      ''4'' @ [TAB] @ ''5'' @ [TAB] @ ''6'']"

definition ab_log :: "string list" where
  "ab_log = [''#fields'' @ [TAB] @ ''a'' @ [TAB] @ ''b'', ''1'' @ [TAB] @ ''2'']"

text \<open>
  The parser that \<^verbatim>\<open>NewParser("conn.log", false)\<close>, \<^verbatim>\<open>SetFields(sel)\<close> and
  \<^verbatim>\<open>CreateBuffer(2)\<close> leave: selected-fields mode, nothing resolved yet, an open and
  empty channel.
\<close>

definition selecting :: "string list \<Rightarrow> Parser" where
  "selecting sel =
     \<lparr>allFields = False, fields' = Some sel, fieldsIndex = [], filepath = ''conn.log'',
      Row = Some \<lparr>capacity = 2, sent = [], closed = False\<rparr>\<rparr>"

text \<open>
  The parser that \<^verbatim>\<open>NewParser("conn.log", true)\<close>, \<^verbatim>\<open>SetFields(flds)\<close> and
  \<^verbatim>\<open>CreateBuffer(2)\<close> leave: all-fields mode, an open and empty channel.
\<close>

definition taking_all :: "string list option \<Rightarrow> Parser" where
  "taking_all flds =
     \<lparr>allFields = True, fields' = flds, fieldsIndex = [], filepath = ''conn.log'',
      Row = Some \<lparr>capacity = 2, sent = [], closed = False\<rparr>\<rparr>"

section \<open>Properties of the helper loops\<close>

lemma strings_Split_not_Nil: "strings_Split s sep \<noteq> []"
  by (induction s) (auto split: list.splits)

lemma length_strings_Split:
  "length (strings_Split s sep) = Suc (length (filter (\<lambda>c. c = sep) s))"
  by (induction s) (auto split: list.splits)


lemma BufferRow_loop_append:
  "BufferRow_loop p parseFunc (xs @ ys) ch =
     (case BufferRow_loop p parseFunc xs ch of
        (ch', Some k) \<Rightarrow> (ch', Some k)
      | (ch', None) \<Rightarrow> BufferRow_loop p parseFunc ys ch')"
  by (induction xs arbitrary: ch) (auto split: prod.splits option.splits)

lemma getIndex_from_eq:
  "getIndex_from i allF cf =
     (if cf \<in> set allF then Inr (i + length (takeWhile (\<lambda>h. h \<noteq> cf) allF))
      else Inl (NotFound cf))"
  by (induction allF arbitrary: i) auto

lemma GetIndexOfFields_loop_matched:
  "set matched \<subseteq> set allF \<Longrightarrow>
   GetIndexOfFields_loop allF (matched @ rest) p =
   GetIndexOfFields_loop allF rest
     (p\<lparr>fieldsIndex := fieldsIndex p @ map (\<lambda>f. length (takeWhile (\<lambda>h. h \<noteq> f) allF)) matched\<rparr>)"
  by (induction matched arbitrary: p) (auto simp: getIndex_def getIndex_from_eq)

lemma GetIndexOfFields_loop_unmatched:
  "z \<notin> set allF \<Longrightarrow> GetIndexOfFields_loop allF (z # rest) p = (p, Some (NotFound z))"
  by (simp add: getIndex_def getIndex_from_eq)

lemma BufferRow_line_mismatch:
  assumes "allFields p = True"
    and "length (strings_Split line TAB) \<noteq> length (slice_elems (fields' p))"
    and "line \<noteq> []"
  shows "BufferRow_line p parseFunc line ch = (ch, None)"
  using assms by (cases line) (simp_all add: BufferRow_line_def del: strings_Split.simps)

lemma BufferRow_loop_skip:
  assumes "\<And>c. BufferRow_line p parseFunc line c = (c, None)"
  shows "BufferRow_loop p parseFunc (before @ line # after) ch =
         BufferRow_loop p parseFunc (before @ after) ch"
  by (simp add: BufferRow_loop_append assms split: prod.splits option.splits)

lemma filtered_failing:
  assumes "\<And>flds r. snd (f flds r) \<noteq> None"
  shows "filtered (f # others) = filtered []"
proof (intro ext)
  fix flds r
  show "filtered (f # others) flds r = filtered [] flds r"
    using assms [of flds r] by (cases "f flds r") (auto simp: filtered_def)
qed

lemma BufferRow_line_failing:
  assumes "\<And>flds r. snd (f flds r) \<noteq> None"
  shows "BufferRow_line p (f # others) line ch = BufferRow_line p [] line ch"
  unfolding BufferRow_line_def filtered_failing [OF assms] ..

lemma BufferRow_loop_failing:
  assumes "\<And>flds r. snd (f flds r) \<noteq> None"
  shows "BufferRow_loop p (f # others) lines ch = BufferRow_loop p [] lines ch"
  by (induction lines arbitrary: ch) (simp_all add: BufferRow_line_failing [OF assms])

text \<open>
  The scan never closes the channel, and index resolution never touches it: from an open
  channel, the channel of the parser is closed when \<^verbatim>\<open>BufferRow\<close> returns exactly when
  the run went through the whole file to \<^verbatim>\<open>close(p.Row)\<close>.
\<close>

lemma send_closed: "send ch r = Some ch' \<Longrightarrow> closed ch' = closed ch"
  by (auto simp: send_def split: if_splits)

lemma BufferRow_line_closed:
  "closed (fst (BufferRow_line p parseFunc line ch)) = closed ch"
  by (simp add: BufferRow_line_def Let_def send_closed split: list.split option.split
       del: strings_Split.simps)

lemma BufferRow_loop_closed:
  "closed (fst (BufferRow_loop p parseFunc lines ch)) = closed ch"
proof (induction lines arbitrary: ch)
  case Nil
  show ?case by simp
next
  case (Cons line rest)
  obtain ch' k where step: "BufferRow_line p parseFunc line ch = (ch', k)"
    by (cases "BufferRow_line p parseFunc line ch")
  have "closed ch' = closed ch"
    using BufferRow_line_closed [of p parseFunc line ch] step by simp
  then show ?case
    using step Cons.IH [of ch'] by (cases k) simp_all
qed

lemma GetIndexOfFields_loop_Row:
  "Row (fst (GetIndexOfFields_loop allF sel p)) = Row p"
  by (induction sel arbitrary: p) (simp_all split: sum.split)

lemma GetIndexOfFields_Row: "Row (fst (GetIndexOfFields fs p)) = Row p"
proof (cases "ParseAllFields fs p")
  case (Ok allF)
  show ?thesis
  proof (cases "fields' p")
    case None
    then show ?thesis
      using Ok by (simp add: GetIndexOfFields_def)
  next
    case (Some flds)
    obtain p' r where loop: "GetIndexOfFields_loop (slice_elems allF) flds p = (p', r)"
      by (cases "GetIndexOfFields_loop (slice_elems allF) flds p")
    have "Row p' = Row p"
      using GetIndexOfFields_loop_Row [of "slice_elems allF" flds p] loop by simp
    then show ?thesis
      using Ok Some loop by (cases r) (simp_all add: GetIndexOfFields_def)
  qed
next
  case (Err e)
  then show ?thesis
    by (simp add: GetIndexOfFields_def)
next
  case (Panic k)
  then show ?thesis
    by (simp add: GetIndexOfFields_def)
qed

lemma BufferRow_closed_iff_Completed:
  assumes row: "Row p = Some ch" and opn: "closed ch = False"
  shows "map_option closed (Row (fst (BufferRow fs p parseFunc)))
           = Some (snd (BufferRow fs p parseFunc) = Completed)"
proof (cases "fields' p")
  case None
  then show ?thesis
    using row opn by (simp add: BufferRow_def)
next
  case (Some flds)
  obtain p1 r where res: "(if allFields p = False then GetIndexOfFields fs p else (p, Ok ())) = (p1, r)"
    by (cases "if allFields p = False then GetIndexOfFields fs p else (p, Ok ())")
  have row1: "Row p1 = Some ch"
    using res row GetIndexOfFields_Row [of fs p] by (auto split: if_splits)
  show ?thesis
  proof (cases r)
    case (Ok u)
    show ?thesis
    proof (cases "fs (filepath p1)")
      case None
      then show ?thesis
        using row opn Some res Ok row1 by (simp add: BufferRow_def)
    next
      case (Some lines)
      obtain ch' k where loop: "BufferRow_loop p1 parseFunc (Scanner_lines lines) ch = (ch', k)"
        by (cases "BufferRow_loop p1 parseFunc (Scanner_lines lines) ch")
      have "closed ch' = False"
        using BufferRow_loop_closed [of p1 parseFunc "Scanner_lines lines" ch] loop opn by simp
      then show ?thesis
        using row \<open>fields' p = Some flds\<close> res Ok Some loop
        by (cases k) (simp_all add: BufferRow_def close_def)
    qed
  next
    case (Err e)
    then show ?thesis
      using row opn Some res row1 by (simp add: BufferRow_def)
  next
    case (Panic k)
    then show ?thesis
      using row opn Some res row1 by (simp add: BufferRow_def)
  qed
qed

text \<open>
  In all-fields mode \<^verbatim>\<open>BufferRow\<close> changes nothing of the parser but the channel, so a
  new buffer puts the parser back where it was before the run.
\<close>

lemma BufferRow_all_fields_parser:
  assumes "allFields p = True"
  shows "(fst (BufferRow fs p parseFunc))\<lparr>Row := r\<rparr> = p\<lparr>Row := r\<rparr>"
  using assms
  by (simp add: BufferRow_def split: option.split prod.split)

lemma BufferRow_all_fields_again:
  assumes "allFields p = True"
  shows "CreateBuffer maxSize (fst (BufferRow fs p parseFunc)) n = CreateBuffer maxSize p n"
  by (simp add: CreateBuffer_def BufferRow_all_fields_parser [OF assms])

text \<open>
  The example parsers are what the three calls leave, for a path that exists and on any
  runtime that makes channels of size 2.
\<close>

lemma selecting_built:
  "(case NewParser (\<lambda>path. False) ''conn.log'' False of
      Ok p \<Rightarrow> CreateBuffer (m + 2) (SetFields p (Some sel)) 2 = Ok (selecting sel)
    | Err e \<Rightarrow> False
    | Panic k \<Rightarrow> False)"
  by (simp add: NewParser_def SetFields_def CreateBuffer_def selecting_def)

lemma taking_all_built:
  "(case NewParser (\<lambda>path. False) ''conn.log'' True of
      Ok p \<Rightarrow> CreateBuffer (m + 2) (SetFields p flds) 2 = Ok (taking_all flds)
    | Err e \<Rightarrow> False
    | Panic k \<Rightarrow> False)"
  by (simp add: NewParser_def SetFields_def CreateBuffer_def taking_all_def)

text \<open>The scanner on the example logs and on a file put together from two parts.\<close>

lemma Scanner_lines_append:
  "Scanner_lines (xs @ ys) =
     (if list_all (\<lambda>l. length l < MaxScanTokenSize) xs then map dropCR xs @ Scanner_lines ys
      else Scanner_lines xs)"
  by (induction xs) simp_all

lemma Scanner_lines_abc_log: "Scanner_lines abc_log = abc_log"
  by (simp add: abc_log_def MaxScanTokenSize_def dropCR_def TAB_def)

lemma Scanner_lines_ab_log: "Scanner_lines ab_log = ab_log"
  by (simp add: ab_log_def MaxScanTokenSize_def dropCR_def TAB_def)

text \<open>Index resolution changes nothing of the parser but \<^verbatim>\<open>p.fieldsIndex\<close>.\<close>

lemma GetIndexOfFields_loop_only_index:
  "fst (GetIndexOfFields_loop allF sel p) =
     p\<lparr>fieldsIndex := fieldsIndex (fst (GetIndexOfFields_loop allF sel p))\<rparr>"
proof (induction sel arbitrary: p)
  case Nil
  show ?case by simp
next
  case (Cons configField rest)
  show ?case
  proof (cases "getIndex allF configField")
    case (Inl err)
    then show ?thesis by simp
  next
    case (Inr index)
    have "fst (GetIndexOfFields_loop allF rest (p\<lparr>fieldsIndex := fieldsIndex p @ [index]\<rparr>)) =
          (p\<lparr>fieldsIndex := fieldsIndex p @ [index]\<rparr>)
            \<lparr>fieldsIndex := fieldsIndex (fst (GetIndexOfFields_loop allF rest
                (p\<lparr>fieldsIndex := fieldsIndex p @ [index]\<rparr>)))\<rparr>"
      by (rule Cons.IH)
    then show ?thesis
      using Inr by simp
  qed
qed

lemma GetIndexOfFields_only_index:
  assumes "GetIndexOfFields fs p = (p1, r)"
  shows "p1 = p\<lparr>fieldsIndex := fieldsIndex p1\<rparr>"
proof (cases "ParseAllFields fs p")
  case (Ok allF)
  show ?thesis
  proof (cases "fields' p")
    case None
    then show ?thesis
      using Ok assms by (simp add: GetIndexOfFields_def)
  next
    case (Some flds)
    obtain p' e where loop: "GetIndexOfFields_loop (slice_elems allF) flds p = (p', e)"
      by (cases "GetIndexOfFields_loop (slice_elems allF) flds p")
    have "p' = p\<lparr>fieldsIndex := fieldsIndex p'\<rparr>"
      using GetIndexOfFields_loop_only_index [of "slice_elems allF" flds p] loop by simp
    moreover have "p1 = p'"
      using Ok Some loop assms by (cases e) (simp_all add: GetIndexOfFields_def)
    ultimately show ?thesis
      by simp
  qed
next
  case (Err e)
  then show ?thesis
    using assms by (simp add: GetIndexOfFields_def)
next
  case (Panic k)
  then show ?thesis
    using assms by (simp add: GetIndexOfFields_def)
qed



section \<open>End-to-end scenario\<close>

text \<open>
  For a parser in selected-fields mode with the selection a, c, nothing resolved yet and an
  open channel, on a path that holds the scenario's log, \<^verbatim>\<open>BufferRow\<close> without a
  transform resolves the indices 0 and 2, sends the rows 1, 3 and 4, 6 behind what the
  channel already got, closes the channel and completes.
\<close>

lemma BufferRow_selects_a_c_fresh:
  assumes "allFields p = False" and "fields' p = Some [''a'', ''c'']" and "fieldsIndex p = []"
    and "Row p = Some ch" and "closed ch = False" and "fs (filepath p) = Some abc_log"
  shows "BufferRow fs p [] =
           (p\<lparr>fieldsIndex := [0, 2],
              Row := Some (ch\<lparr>sent := sent ch @ [[''1'', ''3''], [''4'', ''6'']],
                             closed := True\<rparr>)\<rparr>,
            Completed)"
  using assms
  by (simp add: abc_log_def TAB_def MaxScanTokenSize_def dropCR_def BufferRow_def
      GetIndexOfFields_def ParseAllFields_def slice_elems_def getIndex_def BufferRow_line_def
      send_def close_def filtered_def)

text \<open>
  Claim C1. The claim asks for a parser in selected-fields mode with the selection a, c and
  an initialized channel, and says nothing of the indices resolved before. On the
  scenario's log (header \<^verbatim>\<open>#fields\ta\tb\tc\<close>, rows \<^verbatim>\<open>1\t2\t3\<close> and \<^verbatim>\<open>4\t5\t6\<close>), a
  call of \<^verbatim>\<open>GetIndexOfFields\<close> succeeds and leaves such a parser, with the indices 0, 2,
  the channel open and empty. \<^verbatim>\<open>BufferRow\<close> on that parser resolves again behind them
  and sends the rows 1, 3, 1, 3 and 4, 6, 4, 6, not 1, 3 and 4, 6; then it closes the
  channel.
\<close>

theorem BufferRow_after_GetIndexOfFields:
  "GetIndexOfFields (Map.empty(''conn.log'' \<mapsto> abc_log)) (selecting [''a'', ''c'']) =
     (\<lparr>allFields = False, fields' = Some [''a'', ''c''], fieldsIndex = [0, 2],
       filepath = ''conn.log'',
       Row = Some \<lparr>capacity = 2, sent = [], closed = False\<rparr>\<rparr>, Ok ())
   \<and> BufferRow (Map.empty(''conn.log'' \<mapsto> abc_log))
       \<lparr>allFields = False, fields' = Some [''a'', ''c''], fieldsIndex = [0, 2],
        filepath = ''conn.log'',
        Row = Some \<lparr>capacity = 2, sent = [], closed = False\<rparr>\<rparr> [] =
     (\<lparr>allFields = False, fields' = Some [''a'', ''c''], fieldsIndex = [0, 2, 0, 2],
       filepath = ''conn.log'',
       Row = Some \<lparr>capacity = 2,
                    sent = [[''1'', ''3'', ''1'', ''3''], [''4'', ''6'', ''4'', ''6'']],
                    closed = True\<rparr>\<rparr>,
      Completed)"
  by (simp add: abc_log_def ab_log_def TAB_def MaxScanTokenSize_def dropCR_def selecting_def taking_all_def
      BufferRow_def GetIndexOfFields_def ParseAllFields_def slice_elems_def getIndex_def
      BufferRow_line_def send_def close_def filtered_def)

section \<open>Index resolution with a name the header lacks\<close>

text \<open>
  Claim C2, as the code has it. Let the header scan succeed with header \<open>hdr\<close>, and let
  the selection be \<open>matched @ z # rest\<close>, where every name of \<open>matched\<close> is in the header
  and \<open>z\<close> is not: \<open>z\<close> is the first unmatched name. Then \<^verbatim>\<open>GetIndexOfFields\<close> returns
  the error whose message ends with \<open>z\<close> and nothing else; it reads no data row and leaves
  the mode, the selection, the path and the channel as they were. The indices of the names
  of \<open>matched\<close> have by then been appended to \<^verbatim>\<open>p.fieldsIndex\<close>, which is therefore
  unchanged only when \<open>matched\<close> is empty. \<^verbatim>\<open>BufferRow\<close> in selected-fields mode logs that
  error and returns with the same parser: no row is sent.
\<close>

theorem GetIndexOfFields_NotFound:
  assumes hdr: "ParseAllFields fs p = Ok hdr"
    and sel: "fields' p = Some (matched @ z # rest)"
    and matched: "set matched \<subseteq> set (slice_elems hdr)"
    and z: "z \<notin> set (slice_elems hdr)"
  shows "GetIndexOfFields fs p =
           (p\<lparr>fieldsIndex := fieldsIndex p @
                map (\<lambda>f. length (takeWhile (\<lambda>h. h \<noteq> f) (slice_elems hdr))) matched\<rparr>,
            Err (ErrorString
              (''Couldn't match field defined in config with one in bro log, field is: '' @ z)))
         \<and> (allFields p = False \<and> Row p = Some ch \<longrightarrow>
              BufferRow fs p parseFunc =
                (p\<lparr>fieldsIndex := fieldsIndex p @
                     map (\<lambda>f. length (takeWhile (\<lambda>h. h \<noteq> f) (slice_elems hdr))) matched\<rparr>,
                 LoggedErr (NotFound z)))"
proof -
  have g: "GetIndexOfFields fs p =
           (p\<lparr>fieldsIndex := fieldsIndex p @
                map (\<lambda>f. length (takeWhile (\<lambda>h. h \<noteq> f) (slice_elems hdr))) matched\<rparr>,
            Err (NotFound z))"
    using hdr sel
    by (simp add: GetIndexOfFields_def GetIndexOfFields_loop_matched [OF matched]
        GetIndexOfFields_loop_unmatched [OF z] del: GetIndexOfFields_loop.simps)
  have b: "allFields p = False \<and> Row p = Some ch \<longrightarrow>
              BufferRow fs p parseFunc =
                (p\<lparr>fieldsIndex := fieldsIndex p @
                     map (\<lambda>f. length (takeWhile (\<lambda>h. h \<noteq> f) (slice_elems hdr))) matched\<rparr>,
                 LoggedErr (NotFound z))"
    using g sel by (simp add: BufferRow_def)
  from g b show ?thesis
    by (simp add: NotFound_def)
qed

text \<open>
  The theorem at the header a, b and the selection a, z: the error names z, and the index
  0 of a stays in the parser.
\<close>

theorem GetIndexOfFields_NotFound_witness:
  "ParseAllFields (Map.empty(''conn.log'' \<mapsto> ab_log)) (selecting [''a'', ''z'']) = Ok (Some [''a'', ''b''])
   \<and> GetIndexOfFields (Map.empty(''conn.log'' \<mapsto> ab_log)) (selecting [''a'', ''z'']) =
       ((selecting [''a'', ''z''])\<lparr>fieldsIndex := [0]\<rparr>,
        Err (ErrorString
          (''Couldn't match field defined in config with one in bro log, field is: z'')))
   \<and> BufferRow (Map.empty(''conn.log'' \<mapsto> ab_log)) (selecting [''a'', ''z'']) [] =
       ((selecting [''a'', ''z''])\<lparr>fieldsIndex := [0]\<rparr>, LoggedErr (NotFound ''z''))"
proof -
  have h: "ParseAllFields (Map.empty(''conn.log'' \<mapsto> ab_log)) (selecting [''a'', ''z''])
             = Ok (Some [''a'', ''b''])"
    by (simp add: ParseAllFields_def selecting_def Scanner_lines_ab_log)
      (simp add: ab_log_def TAB_def)
  have s: "fields' (selecting [''a'', ''z'']) = Some ([''a''] @ ''z'' # [])"
    by (simp add: selecting_def)
  have m: "set [''a''] \<subseteq> set (slice_elems (Some [''a'', ''b'']))"
    by (simp add: slice_elems_def)
  have z: "''z'' \<notin> set (slice_elems (Some [''a'', ''b'']))"
    by (simp add: slice_elems_def)
  have r: "allFields (selecting [''a'', ''z'']) = False
           \<and> Row (selecting [''a'', ''z'']) = Some \<lparr>capacity = 2, sent = [], closed = False\<rparr>"
    by (simp add: selecting_def)
  show ?thesis
    using h r GetIndexOfFields_NotFound [OF h s m z,
        of "\<lparr>capacity = 2, sent = [], closed = False\<rparr>" "[]"]
    by (simp add: slice_elems_def selecting_def)
qed

text \<open>
  The claim as it was stated fails there: the resolved-index state is empty before the
  failed call and holds the index 0 after it.
\<close>

theorem GetIndexOfFields_partial_state:
  "snd (GetIndexOfFields (Map.empty(''conn.log'' \<mapsto> ab_log)) (selecting [''a'', ''z'']))
     = Err (NotFound ''z'')
   \<and> fieldsIndex (selecting [''a'', ''z'']) = []
   \<and> fieldsIndex (fst (GetIndexOfFields (Map.empty(''conn.log'' \<mapsto> ab_log))
        (selecting [''a'', ''z'']))) = [0]"
  by (simp add: abc_log_def ab_log_def TAB_def MaxScanTokenSize_def dropCR_def selecting_def taking_all_def
      BufferRow_def GetIndexOfFields_def ParseAllFields_def slice_elems_def getIndex_def
      BufferRow_line_def send_def close_def filtered_def)

section \<open>Rows that do not match the field list in all-fields mode\<close>

text \<open>
  A run of \<^verbatim>\<open>BufferRow\<close> reads nothing of the files but the lines the scanner yields for
  the path of the parser.
\<close>

lemma BufferRow_files_cong:
  assumes same: "map_option Scanner_lines (fs (filepath p)) =
                 map_option Scanner_lines (fs' (filepath p))"
  shows "BufferRow fs p parseFunc = BufferRow fs' p parseFunc"
proof -
  have pa: "ParseAllFields fs p = ParseAllFields fs' p"
    using same
    by (cases "fs (filepath p)"; cases "fs' (filepath p)") (simp_all add: ParseAllFields_def)
  have gi: "GetIndexOfFields fs p = GetIndexOfFields fs' p"
    by (simp add: GetIndexOfFields_def pa)
  obtain p1 r where res: "(if allFields p = False then GetIndexOfFields fs p else (p, Ok ())) = (p1, r)"
    by (cases "if allFields p = False then GetIndexOfFields fs p else (p, Ok ())")
  have res': "(if allFields p = False then GetIndexOfFields fs' p else (p, Ok ())) = (p1, r)"
    using res by (simp only: gi)
  have path: "filepath p1 = filepath p"
  proof (cases "allFields p = False")
    case True
    then have "GetIndexOfFields fs p = (p1, r)"
      using res by simp
    then show ?thesis
      using arg_cong [OF GetIndexOfFields_only_index, of fs p p1 r filepath] by simp
  next
    case False
    then show ?thesis
      using res by simp
  qed
  show ?thesis
  proof (cases "Row p")
    case None
    then show ?thesis
      by (simp add: BufferRow_def)
  next
    case (Some ch)
    note row = this
    show ?thesis
    proof (cases "fields' p")
      case None
      then show ?thesis
        using row by (simp add: BufferRow_def)
    next
      case (Some flds)
      show ?thesis
      proof (cases "fs (filepath p)")
        case None
        then have "fs' (filepath p) = None"
          using same by simp
        then show ?thesis
          using None row Some res res' path by (cases r) (simp_all add: BufferRow_def)
      next
        case (Some lines)
        then obtain lines' where l': "fs' (filepath p) = Some lines'"
          and eq: "Scanner_lines lines = Scanner_lines lines'"
          using same by (cases "fs' (filepath p)") simp_all
        show ?thesis
          using Some l' eq row \<open>fields' p = Some flds\<close> res res' path
          by (cases r) (simp_all add: BufferRow_def)
      qed
    qed
  qed
qed

text \<open>
  A line of \<^verbatim>\<open>MaxScanTokenSize\<close> bytes or more ends the scan in either mode: the lines
  from it on are not read, and the run goes on to close the channel.
\<close>

lemma Scanner_lines_long_line:
  assumes "MaxScanTokenSize \<le> length line"
  shows "Scanner_lines (before @ line # after) = Scanner_lines before"
  using assms by (induction before) simp_all

lemma BufferRow_long_line_ends_scan:
  assumes "MaxScanTokenSize \<le> length line"
  shows "BufferRow (fs(filepath p \<mapsto> before @ line # after)) p parseFunc =
         BufferRow (fs(filepath p \<mapsto> before)) p parseFunc"
  by (rule BufferRow_files_cong) (simp add: Scanner_lines_long_line [OF assms])

text \<open>
  Claim C3, as the code has it. In all-fields mode \<^verbatim>\<open>BufferRow\<close> never reads the header:
  it compares the value count of a row with \<^verbatim>\<open>len(p.fields)\<close>, the field list the caller
  set. Let a line of the file be shorter than \<^verbatim>\<open>MaxScanTokenSize\<close>, so that the scanner
  yields it, not empty once its carriage return is dropped, and let its count of
  tab-separated values differ from the length of the parser's field list. Then the line is
  skipped and the scan goes on: a run on a file with such a line anywhere in it leaves the
  same parser, the same rows sent in the same order, and ends the same way, as a run on the
  file without that line, whatever transform is passed.
\<close>

theorem BufferRow_skips_mismatched_row:
  assumes af: "allFields p = True"
    and short: "length line < MaxScanTokenSize"
    and nonempty: "dropCR line \<noteq> []"
    and mismatch: "length (strings_Split (dropCR line) TAB) \<noteq> length (slice_elems (fields' p))"
  shows "BufferRow (fs(filepath p \<mapsto> before @ line # after)) p parseFunc =
         BufferRow (fs(filepath p \<mapsto> before @ after)) p parseFunc"
proof -
  have skip: "BufferRow_line p parseFunc (dropCR line) c = (c, None)" for c
    by (rule BufferRow_line_mismatch [OF af mismatch nonempty])
  have "BufferRow_loop p parseFunc (Scanner_lines (before @ line # after)) ch =
        BufferRow_loop p parseFunc (Scanner_lines (before @ after)) ch" for ch
  proof (cases "list_all (\<lambda>l. length l < MaxScanTokenSize) before")
    case True
    then show ?thesis
      using short BufferRow_loop_skip [of p parseFunc "dropCR line", OF skip]
      by (simp add: Scanner_lines_append)
  next
    case False
    then show ?thesis
      by (simp add: Scanner_lines_append)
  qed
  then show ?thesis
    using af by (simp add: BufferRow_def split: option.splits)
qed

text \<open>
  The theorem with the field list a, b at the header a, b and the lines \<^verbatim>\<open>1\t2\<close>,
  \<^verbatim>\<open>3\t4\t5\<close>, \<^verbatim>\<open>6\t7\<close>: the line of three values is left out, the line after it is
  sent.
\<close>

theorem BufferRow_skips_mismatched_row_witness:
  "BufferRow
     (Map.empty(''conn.log'' \<mapsto> ab_log @ (''3'' @ [TAB] @ ''4'' @ [TAB] @ ''5'')
        # [''6'' @ [TAB] @ ''7'']))
     (taking_all (Some [''a'', ''b''])) [] =
     ((taking_all (Some [''a'', ''b'']))
        \<lparr>Row := Some \<lparr>capacity = 2, sent = [[''1'', ''2''], [''6'', ''7'']], closed = True\<rparr>\<rparr>,
      Completed)"
proof -
  have a: "allFields (taking_all (Some [''a'', ''b''])) = True"
    by (simp add: taking_all_def)
  have f: "filepath (taking_all (Some [''a'', ''b''])) = ''conn.log''"
    by (simp add: taking_all_def)
  have s: "length (''3'' @ [TAB] @ ''4'' @ [TAB] @ ''5'') < MaxScanTokenSize"
    by (simp add: MaxScanTokenSize_def)
  have d: "dropCR (''3'' @ [TAB] @ ''4'' @ [TAB] @ ''5'') \<noteq> []"
    by (simp add: dropCR_def)
  have m: "length (strings_Split (dropCR (''3'' @ [TAB] @ ''4'' @ [TAB] @ ''5'')) TAB)
             \<noteq> length (slice_elems (fields' (taking_all (Some [''a'', ''b'']))))"
    by (simp add: taking_all_def slice_elems_def TAB_def dropCR_def)
  have e: "BufferRow (Map.empty(''conn.log'' \<mapsto> ab_log @ [''6'' @ [TAB] @ ''7'']))
             (taking_all (Some [''a'', ''b''])) [] =
           ((taking_all (Some [''a'', ''b'']))
              \<lparr>Row := Some \<lparr>capacity = 2, sent = [[''1'', ''2''], [''6'', ''7'']],
                             closed = True\<rparr>\<rparr>,
            Completed)"
    by (simp add: abc_log_def ab_log_def TAB_def MaxScanTokenSize_def dropCR_def selecting_def taking_all_def
      BufferRow_def GetIndexOfFields_def ParseAllFields_def slice_elems_def getIndex_def
      BufferRow_line_def send_def close_def filtered_def)
  show ?thesis
    using e BufferRow_skips_mismatched_row [OF a s d m, of Map.empty ab_log "[''6'' @ [TAB] @ ''7'']" "[]"]
    by (simp add: f)
qed

text \<open>
  The claim as it was stated fails in two ways. With the field list x on the log with the
  header a, b, the row \<^verbatim>\<open>1\t2\<close> and the line \<^verbatim>\<open>77\<close>: the line of one value, which
  differs from the header's two, is sent, and the row that matches the header is not. With
  the field list a, b on the log followed by a line of \<^verbatim>\<open>MaxScanTokenSize\<close> bytes, of one
  value, and the row \<^verbatim>\<open>3\t4\<close>: the scan ends at the long line and the row after it is
  never sent.
\<close>

theorem BufferRow_compares_with_field_list:
  "ParseAllFields (Map.empty(''conn.log'' \<mapsto> ab_log @ [''77''])) (taking_all (Some [''x'']))
     = Ok (Some [''a'', ''b''])
   \<and> strings_Split ''77'' TAB = [''77'']
   \<and> BufferRow (Map.empty(''conn.log'' \<mapsto> ab_log @ [''77''])) (taking_all (Some [''x''])) [] =
       (\<lparr>allFields = True, fields' = Some [''x''], fieldsIndex = [], filepath = ''conn.log'',
         Row = Some \<lparr>capacity = 2, sent = [[''77'']], closed = True\<rparr>\<rparr>,
        Completed)
   \<and> BufferRow
       (Map.empty(''conn.log'' \<mapsto> ab_log @
           replicate MaxScanTokenSize (CHR ''z'') # [''3'' @ [TAB] @ ''4'']))
       (taking_all (Some [''a'', ''b''])) [] =
       (\<lparr>allFields = True, fields' = Some [''a'', ''b''], fieldsIndex = [],
         filepath = ''conn.log'',
         Row = Some \<lparr>capacity = 2, sent = [[''1'', ''2'']], closed = True\<rparr>\<rparr>,
        Completed)"
proof -
  have one: "ParseAllFields (Map.empty(''conn.log'' \<mapsto> ab_log @ [''77'']))
               (taking_all (Some [''x''])) = Ok (Some [''a'', ''b''])"
    by (simp add: ParseAllFields_def taking_all_def ab_log_def TAB_def MaxScanTokenSize_def
        dropCR_def)
  have two: "strings_Split ''77'' TAB = [''77'']"
    by (simp add: TAB_def)
  have three: "BufferRow (Map.empty(''conn.log'' \<mapsto> ab_log @ [''77'']))
       (taking_all (Some [''x''])) [] =
       (\<lparr>allFields = True, fields' = Some [''x''], fieldsIndex = [], filepath = ''conn.log'',
         Row = Some \<lparr>capacity = 2, sent = [[''77'']], closed = True\<rparr>\<rparr>,
        Completed)"
    by (simp add: abc_log_def ab_log_def TAB_def MaxScanTokenSize_def dropCR_def selecting_def taking_all_def
      BufferRow_def GetIndexOfFields_def ParseAllFields_def slice_elems_def getIndex_def
      BufferRow_line_def send_def close_def filtered_def)
  have f: "filepath (taking_all (Some [''a'', ''b''])) = ''conn.log''"
    by (simp add: taking_all_def)
  have long: "MaxScanTokenSize \<le> length (replicate MaxScanTokenSize (CHR ''z''))"
    by simp
  have "BufferRow
       (Map.empty(''conn.log'' \<mapsto> ab_log @
           replicate MaxScanTokenSize (CHR ''z'') # [''3'' @ [TAB] @ ''4'']))
       (taking_all (Some [''a'', ''b''])) [] =
     BufferRow (Map.empty(''conn.log'' \<mapsto> ab_log)) (taking_all (Some [''a'', ''b''])) []"
    using BufferRow_long_line_ends_scan [OF long, of Map.empty "taking_all (Some [''a'', ''b''])"
        ab_log "[''3'' @ [TAB] @ ''4'']" "[]"]
    by (simp only: f)
  also have "\<dots> =
       (\<lparr>allFields = True, fields' = Some [''a'', ''b''], fieldsIndex = [],
         filepath = ''conn.log'',
         Row = Some \<lparr>capacity = 2, sent = [[''1'', ''2'']], closed = True\<rparr>\<rparr>,
        Completed)"
    by (simp add: abc_log_def ab_log_def TAB_def MaxScanTokenSize_def dropCR_def selecting_def taking_all_def
      BufferRow_def GetIndexOfFields_def ParseAllFields_def slice_elems_def getIndex_def
      BufferRow_line_def send_def close_def filtered_def)
  finally show ?thesis
    using one two three by simp
qed

section \<open>A transform that always fails\<close>

text \<open>
  Claim C4. A transform that returns an error on every input changes nothing: for every
  file system and every parser, \<^verbatim>\<open>BufferRow\<close> called with it (and with any further
  arguments after it, which the code never looks at) leaves the same parser and the same
  rows sent, and ends the same way, as \<^verbatim>\<open>BufferRow\<close> called with no transform. Every row
  of the one run is a row of the other: none is dropped.
\<close>

theorem BufferRow_failing_transform:
  assumes "\<And>flds r. snd (f flds r) \<noteq> None"
  shows "BufferRow fs p (f # others) = BufferRow fs p []"
  unfolding BufferRow_def BufferRow_loop_failing [OF assms] ..

text \<open>
  The theorem at the scenario's log with a transform that returns an empty row and an
  error: the rows sent are the extractions.
\<close>

theorem BufferRow_failing_transform_witness:
  "BufferRow (Map.empty(''conn.log'' \<mapsto> abc_log)) (selecting [''a'', ''c''])
     [\<lambda>flds r. ([], Some (ErrorString ''rejected''))] =
   ((selecting [''a'', ''c''])
      \<lparr>fieldsIndex := [0, 2],
       Row := Some \<lparr>capacity = 2, sent = [[''1'', ''3''], [''4'', ''6'']], closed = True\<rparr>\<rparr>,
    Completed)"
proof -
  have fails: "snd ((\<lambda>flds r. ([], Some (ErrorString ''rejected''))) flds r) \<noteq> None"
    for flds r :: "string list"
    by simp
  have plain: "BufferRow (Map.empty(''conn.log'' \<mapsto> abc_log)) (selecting [''a'', ''c'']) [] =
     ((selecting [''a'', ''c''])
        \<lparr>fieldsIndex := [0, 2],
         Row := Some \<lparr>capacity = 2, sent = [[''1'', ''3''], [''4'', ''6'']], closed = True\<rparr>\<rparr>,
      Completed)"
    by (simp add: abc_log_def ab_log_def TAB_def MaxScanTokenSize_def dropCR_def selecting_def taking_all_def
      BufferRow_def GetIndexOfFields_def ParseAllFields_def slice_elems_def getIndex_def
      BufferRow_line_def send_def close_def filtered_def)
  show ?thesis
    using BufferRow_failing_transform
      [of "\<lambda>flds r. ([], Some (ErrorString ''rejected''))"
          "Map.empty(''conn.log'' \<mapsto> abc_log)" "selecting [''a'', ''c'']" "[]", OF fails]
    by (simp only: plain)
qed

section \<open>Runs in selected-fields mode\<close>



section \<open>What is checked before the scan\<close>

text \<open>
  Claim C9, as the code has it. \<^verbatim>\<open>BufferRow\<close> checks first that the channel exists: without
  one it prints a message and returns, the parser unchanged. It checks next that the field
  list is not nil, in both modes: without one it prints \<^verbatim>\<open>No fields parsed\<close> and returns,
  the parser and its channel unchanged, in all-fields mode too. In all-fields mode with a
  channel and a field list it resolves no index and goes on to open and scan the file.
\<close>

theorem BufferRow_preconditions:
  "(Row p = None \<longrightarrow>
      BufferRow fs p parseFunc = (p, LoggedMsg ''Initialize nil channel, via CreateBuffer()''))
   \<and> (Row p \<noteq> None \<and> fields' p = None \<longrightarrow>
      BufferRow fs p parseFunc = (p, LoggedMsg ''No fields parsed''))
   \<and> (Row p = Some ch \<and> fields' p = Some flds \<and> allFields p = True
        \<and> fs (filepath p) = Some lines \<longrightarrow>
      BufferRow fs p parseFunc =
        (case BufferRow_loop p parseFunc (Scanner_lines lines) ch of
           (ch', Some k) \<Rightarrow> (p\<lparr>Row := Some ch'\<rparr>, Panicked k)
         | (ch', None) \<Rightarrow>
             (case close ch' of
                None \<Rightarrow> (p\<lparr>Row := Some ch'\<rparr>, Panicked CloseOfClosedChannel)
              | Some ch'' \<Rightarrow> (p\<lparr>Row := Some ch''\<rparr>, Completed))))"
  by (auto simp: BufferRow_def)

text \<open>
  The theorem at three parsers on the scenario's log: one newly made without a channel, one
  in all-fields mode with a channel and no field list, and one in all-fields mode with the
  field list a, b, c, which sends both rows whole.
\<close>

theorem BufferRow_preconditions_witness:
  "BufferRow (Map.empty(''conn.log'' \<mapsto> abc_log))
      \<lparr>allFields = True, fields' = None, fieldsIndex = [], filepath = ''conn.log'', Row = None\<rparr>
      [] =
     (\<lparr>allFields = True, fields' = None, fieldsIndex = [], filepath = ''conn.log'', Row = None\<rparr>,
      LoggedMsg ''Initialize nil channel, via CreateBuffer()'')
   \<and> BufferRow (Map.empty(''conn.log'' \<mapsto> abc_log)) (taking_all None) [] =
     (taking_all None, LoggedMsg ''No fields parsed'')
   \<and> BufferRow (Map.empty(''conn.log'' \<mapsto> abc_log)) (taking_all (Some [''a'', ''b'', ''c''])) [] =
     ((taking_all (Some [''a'', ''b'', ''c'']))
        \<lparr>Row := Some \<lparr>capacity = 2,
                      sent = [[''1'', ''2'', ''3''], [''4'', ''5'', ''6'']],
                      closed = True\<rparr>\<rparr>,
      Completed)"
proof -
  have c1: "BufferRow (Map.empty(''conn.log'' \<mapsto> abc_log))
      \<lparr>allFields = True, fields' = None, fieldsIndex = [], filepath = ''conn.log'', Row = None\<rparr>
      [] =
     (\<lparr>allFields = True, fields' = None, fieldsIndex = [], filepath = ''conn.log'', Row = None\<rparr>,
      LoggedMsg ''Initialize nil channel, via CreateBuffer()'')"
    using BufferRow_preconditions
      [of "\<lparr>allFields = True, fields' = None, fieldsIndex = [], filepath = ''conn.log'',
            Row = None\<rparr>" "Map.empty(''conn.log'' \<mapsto> abc_log)" "[]"]
    by simp
  have c2: "BufferRow (Map.empty(''conn.log'' \<mapsto> abc_log)) (taking_all None) [] =
     (taking_all None, LoggedMsg ''No fields parsed'')"
    using BufferRow_preconditions
      [of "taking_all None" "Map.empty(''conn.log'' \<mapsto> abc_log)" "[]"]
    by (simp add: taking_all_def)
  have c3: "BufferRow (Map.empty(''conn.log'' \<mapsto> abc_log))
       (taking_all (Some [''a'', ''b'', ''c''])) [] =
     ((taking_all (Some [''a'', ''b'', ''c'']))
        \<lparr>Row := Some \<lparr>capacity = 2,
                      sent = [[''1'', ''2'', ''3''], [''4'', ''5'', ''6'']],
                      closed = True\<rparr>\<rparr>,
      Completed)"
    using BufferRow_preconditions
      [of "taking_all (Some [''a'', ''b'', ''c''])" "Map.empty(''conn.log'' \<mapsto> abc_log)" "[]"
          "\<lparr>capacity = 2, sent = [], closed = False\<rparr>" "[''a'', ''b'', ''c'']" abc_log]
    by (simp add: taking_all_def abc_log_def TAB_def MaxScanTokenSize_def dropCR_def
        BufferRow_line_def slice_elems_def send_def close_def filtered_def)
  from c1 c2 c3 show ?thesis
    by simp
qed

text \<open>
  The claim as it was stated fails on the scenario's log: in all-fields mode, with a channel
  and no field list ever set, the run returns before the file is opened; nothing is sent,
  although the file has two data rows.
\<close>

theorem BufferRow_all_fields_without_selection:
  "allFields (taking_all None) = True
   \<and> BufferRow (Map.empty(''conn.log'' \<mapsto> abc_log)) (taking_all None) [] =
       (\<lparr>allFields = True, fields' = None, fieldsIndex = [], filepath = ''conn.log'',
         Row = Some \<lparr>capacity = 2, sent = [], closed = False\<rparr>\<rparr>,
        LoggedMsg ''No fields parsed'')"
  by (simp add: BufferRow_def taking_all_def)

section \<open>Lines shorter than the directive prefix\<close>

text \<open>
  Claim C5. \<^verbatim>\<open>ParseAllFields\<close> takes \<^verbatim>\<open>line[0:7]\<close> of every line without looking at its
  length, and \<^verbatim>\<open>line[8:]\<close> of a line that starts with the directive: the scan of a file
  whose first line is empty, or has fewer than 7 bytes, or is the directive with nothing
  after it, ends in a slice-bounds panic, also when the header follows; \<^verbatim>\<open>BufferRow\<close> in
  selected-fields mode ends in that panic with it, the channel left open.
\<close>

theorem ParseAllFields_short_line_panics:
  "ParseAllFields (Map.empty(''conn.log'' \<mapsto> [] # ab_log)) (selecting [''a''])
     = Panic SliceBoundsOutOfRange
   \<and> ParseAllFields (Map.empty(''conn.log'' \<mapsto> ''#path'' # ab_log)) (selecting [''a''])
     = Panic SliceBoundsOutOfRange
   \<and> ParseAllFields (Map.empty(''conn.log'' \<mapsto> [''#fields''])) (selecting [''a''])
     = Panic SliceBoundsOutOfRange
   \<and> BufferRow (Map.empty(''conn.log'' \<mapsto> ''#path'' # ab_log)) (selecting [''a'']) []
     = (selecting [''a''], Panicked SliceBoundsOutOfRange)"
  by (simp add: ParseAllFields_def GetIndexOfFields_def BufferRow_def selecting_def
      MaxScanTokenSize_def dropCR_def)

section \<open>Empty lines in the row scan\<close>

text \<open>
  Claim C6. The scan loop of \<^verbatim>\<open>BufferRow\<close> reads \<^verbatim>\<open>line[0]\<close> before any check. A line
  that is just the marker and a line of one other byte are passed over: the log with the
  header a, b, the lines \<^verbatim>\<open>#\<close> and \<^verbatim>\<open>x\<close> and the row \<^verbatim>\<open>1\t2\<close> sends that row and the
  run completes. An empty line panics with an index out of range: on the log with the
  header a, b, the row \<^verbatim>\<open>1\t2\<close>, an empty line and the row \<^verbatim>\<open>3\t4\<close>, the run ends at the
  empty line; the first row was sent, the second never is, and the channel stays open.
\<close>

theorem BufferRow_empty_line_panics:
  "BufferRow (Map.empty(''conn.log'' \<mapsto> [''#fields'' @ [TAB] @ ''a'' @ [TAB] @ ''b'',
        ''#'', ''x'', ''1'' @ [TAB] @ ''2'']))
     (taking_all (Some [''a'', ''b''])) [] =
     ((taking_all (Some [''a'', ''b'']))
        \<lparr>Row := Some \<lparr>capacity = 2, sent = [[''1'', ''2'']], closed = True\<rparr>\<rparr>,
      Completed)
   \<and> BufferRow (Map.empty(''conn.log'' \<mapsto> ab_log @ [[], ''3'' @ [TAB] @ ''4'']))
     (taking_all (Some [''a'', ''b''])) [] =
     ((taking_all (Some [''a'', ''b'']))
        \<lparr>Row := Some \<lparr>capacity = 2, sent = [[''1'', ''2'']], closed = False\<rparr>\<rparr>,
      Panicked IndexOutOfRange)"
  by (simp add: BufferRow_def taking_all_def ab_log_def TAB_def MaxScanTokenSize_def dropCR_def
      BufferRow_line_def slice_elems_def send_def close_def filtered_def)

section \<open>The channel after a run that returns early\<close>

text \<open>
  Claim C7. \<^verbatim>\<open>close(p.Row)\<close> is the last statement of \<^verbatim>\<open>BufferRow\<close> and the early returns
  do not reach it. Each of these runs starts with an open channel and returns with the
  channel still open: in selected-fields mode with no field list set; in selected-fields
  mode with the selection a, z on the header a, b, where the resolution fails; in
  all-fields mode with the field list a, b on a path that cannot be opened.
\<close>

theorem BufferRow_early_return_leaves_open:
  "BufferRow (Map.empty(''conn.log'' \<mapsto> ab_log))
      \<lparr>allFields = False, fields' = None, fieldsIndex = [], filepath = ''conn.log'',
       Row = Some \<lparr>capacity = 2, sent = [], closed = False\<rparr>\<rparr> [] =
     (\<lparr>allFields = False, fields' = None, fieldsIndex = [], filepath = ''conn.log'',
       Row = Some \<lparr>capacity = 2, sent = [], closed = False\<rparr>\<rparr>,
      LoggedMsg ''No fields parsed'')
   \<and> BufferRow (Map.empty(''conn.log'' \<mapsto> ab_log)) (selecting [''a'', ''z'']) [] =
     (\<lparr>allFields = False, fields' = Some [''a'', ''z''], fieldsIndex = [0],
       filepath = ''conn.log'',
       Row = Some \<lparr>capacity = 2, sent = [], closed = False\<rparr>\<rparr>,
      LoggedErr (NotFound ''z''))
   \<and> BufferRow Map.empty (taking_all (Some [''a'', ''b''])) [] =
     (\<lparr>allFields = True, fields' = Some [''a'', ''b''], fieldsIndex = [],
       filepath = ''conn.log'',
       Row = Some \<lparr>capacity = 2, sent = [], closed = False\<rparr>\<rparr>,
      LoggedErr (PathError ''conn.log''))"
  by (simp add: BufferRow_def GetIndexOfFields_def ParseAllFields_def selecting_def
      taking_all_def ab_log_def TAB_def MaxScanTokenSize_def dropCR_def slice_elems_def
      getIndex_def)

section \<open>A second run in selected-fields mode\<close>

text \<open>
  Claim C8. \<^verbatim>\<open>GetIndexOfFields\<close> appends to \<^verbatim>\<open>p.fieldsIndex\<close> and nothing empties it, and
  \<^verbatim>\<open>BufferRow\<close> calls it on every run in selected-fields mode. On the scenario's log with
  the selection a, c, the first run sends the rows 1, 3 and 4, 6. After a new buffer is
  made with \<^verbatim>\<open>CreateBuffer(2)\<close>, on any runtime that makes channels of that size, the
  second run of the same parser on the same file resolves the indices again behind the
  first ones and sends the rows 1, 3, 1, 3 and 4, 6, 4, 6.
\<close>

theorem BufferRow_second_run_differs:
  "(case BufferRow (Map.empty(''conn.log'' \<mapsto> abc_log)) (selecting [''a'', ''c'']) [] of
      (p1, e1) \<Rightarrow>
        (case CreateBuffer (m + 2) p1 2 of
           Ok p2 \<Rightarrow>
             (case BufferRow (Map.empty(''conn.log'' \<mapsto> abc_log)) p2 [] of
                (p3, e3) \<Rightarrow>
                  e1 = Completed \<and> e3 = Completed
                  \<and> fields' p2 = fields' (selecting [''a'', ''c''])
                  \<and> allFields p2 = allFields (selecting [''a'', ''c''])
                  \<and> filepath p2 = filepath (selecting [''a'', ''c''])
                  \<and> map_option sent (Row p1) = Some [[''1'', ''3''], [''4'', ''6'']]
                  \<and> fieldsIndex p3 = [0, 2, 0, 2]
                  \<and> map_option sent (Row p3) =
                      Some [[''1'', ''3'', ''1'', ''3''], [''4'', ''6'', ''4'', ''6'']])
         | Err e \<Rightarrow> False
         | Panic k \<Rightarrow> False))"
  by (simp add: CreateBuffer_def abc_log_def ab_log_def TAB_def MaxScanTokenSize_def dropCR_def selecting_def taking_all_def
      BufferRow_def GetIndexOfFields_def ParseAllFields_def slice_elems_def getIndex_def
      BufferRow_line_def send_def close_def filtered_def)

end
